theory Spec2Isabelle
  imports Complex_Main "HOL-Library.Multiset"
begin

section \<open>Python built-ins used by app.py\<close>

text \<open>
  Tensor elements and Python floats are embedded as the real numbers they denote
  (finite values only). Strings are 7-bit ASCII text; characters outside that range are
  left alone by the case conversions below.
\<close>

definition py_int :: "real \<Rightarrow> int" where
  \<comment> \<open>\<open>int(x)\<close>: truncation towards zero.\<close>
  "py_int x = (if 0 \<le> x then \<lfloor>x\<rfloor> else \<lceil>x\<rceil>)"

definition round_half_even :: "real \<Rightarrow> int" where
  "round_half_even x =
     (let f = \<lfloor>x\<rfloor>; d = x - of_int f
      in if d < 1 / 2 then f else if 1 / 2 < d then f + 1
         else if even f then f else f + 1)"

definition py_round2 :: "real \<Rightarrow> real" where
  \<comment> \<open>\<open>round(x, 2)\<close>: the nearest multiple of 0.01, an exact tie going to the even one.\<close>
  "py_round2 x = of_int (round_half_even (x * 100)) / 100"

definition digit :: "nat \<Rightarrow> char" where
  "digit d = ''0123456789'' ! d"

fun digits :: "nat \<Rightarrow> string" where
  "digits n = (if n < 10 then [digit n] else digits (n div 10) @ [digit (n mod 10)])"

declare digits.simps [simp del]

definition py_str_float :: "real \<Rightarrow> string" where
  \<comment> \<open>\<open>str(x)\<close> of a float that has at most two decimals and is below \<open>1e16\<close>
      in magnitude: the shortest decimal that reads back, with at least one decimal.\<close>
  "py_str_float x =
     (let h = nat \<lfloor>\<bar>x\<bar> * 100\<rfloor>; frac = h mod 100
      in (if x < 0 then ''-'' else []) @ digits (h div 100) @ ''.'' @
         (if frac mod 10 = 0 then [digit (frac div 10)]
          else [digit (frac div 10), digit (frac mod 10)]))"

definition is_upper :: "char \<Rightarrow> bool" where
  "is_upper c = (65 \<le> (of_char c :: nat) \<and> (of_char c :: nat) \<le> 90)"

definition is_lower :: "char \<Rightarrow> bool" where
  "is_lower c = (97 \<le> (of_char c :: nat) \<and> (of_char c :: nat) \<le> 122)"

definition lower_char :: "char \<Rightarrow> char" where
  "lower_char c = (if is_upper c then char_of (of_char c + 32 :: nat) else c)"

definition upper_char :: "char \<Rightarrow> char" where
  "upper_char c = (if is_lower c then char_of (of_char c - 32 :: nat) else c)"

definition lower :: "string \<Rightarrow> string" where
  \<comment> \<open>\<open>s.lower()\<close>\<close>
  "lower s = map lower_char s"

fun title_from :: "bool \<Rightarrow> string \<Rightarrow> string" where
  \<comment> \<open>the flag says whether the previous character was a cased letter\<close>
  "title_from previous_is_cased [] = []"
| "title_from previous_is_cased (c # cs) =
     (if is_lower c then
        (if previous_is_cased then c else upper_char c) # title_from True cs
      else if is_upper c then
        (if previous_is_cased then lower_char c else c) # title_from True cs
      else c # title_from False cs)"

definition title :: "string \<Rightarrow> string" where
  \<comment> \<open>\<open>s.title()\<close>\<close>
  "title s = title_from False s"

record datetime =
  year :: nat
  month :: nat
  day :: nat
  hour :: nat
  minute :: nat
  second :: nat

definition pad2 :: "nat \<Rightarrow> string" where
  \<comment> \<open>a two-digit field of \<open>strftime\<close>, zero padded\<close>
  "pad2 n = (if n < 10 then ''0'' @ digits n else digits n)"

definition strftime_Ymd_HMS :: "datetime \<Rightarrow> string" where
  \<comment> \<open>\<open>now.strftime('%Y%m%d_%H%M%S')\<close>\<close>
  "strftime_Ymd_HMS now =
     digits (year now) @ pad2 (month now) @ pad2 (day now) @ ''_'' @
     pad2 (hour now) @ pad2 (minute now) @ pad2 (second now)"

section \<open>Image buffers and OpenCV drawing calls\<close>

text \<open>
  A numpy array lives in a store and is referred to by its address, so that a copy and an
  alias can be told apart. The content of an array is its decoded pixel rows together
  with the sequence of OpenCV drawing calls applied to it since, in call order. The
  drawing calls write into the array they are given, and raise \<open>cv2.error\<close> when a
  coordinate is not a signed 32-bit integer or the array has no pixels; rasterisation
  itself belongs to OpenCV and is not part of app.py.
\<close>

datatype error = KeyError int | Cv2Error

type_synonym colour = "nat \<times> nat \<times> nat"

type_synonym point = "int \<times> int"

datatype font = FONT_HERSHEY_SIMPLEX

datatype draw_op =
    Rectangle point point colour nat
  | PutText string point font real colour nat

record ndarray =
  pixels :: "colour list list"
  drawn :: "draw_op list"

definition shape :: "ndarray \<Rightarrow> nat \<times> nat" where
  \<comment> \<open>height and width\<close>
  "shape a = (length (pixels a), case pixels a of [] \<Rightarrow> 0 | row # _ \<Rightarrow> length row)"

type_synonym address = nat

type_synonym store = "ndarray list"

definition np_copy :: "store \<Rightarrow> address \<Rightarrow> store \<times> address" where
  \<comment> \<open>\<open>a.copy()\<close>: a new array with the same content\<close>
  "np_copy s a = (s @ [s ! a], length s)"

definition draw :: "store \<Rightarrow> address \<Rightarrow> draw_op \<Rightarrow> store" where
  "draw s a op = s[a := (s ! a)\<lparr>drawn := drawn (s ! a) @ [op]\<rparr>]"

definition fits_int32 :: "int \<Rightarrow> bool" where
  "fits_int32 n = (- 2147483648 \<le> n \<and> n \<le> 2147483647)"

definition is_empty :: "ndarray \<Rightarrow> bool" where
  \<comment> \<open>an array without pixels\<close>
  "is_empty a = (fst (shape a) = 0 \<or> snd (shape a) = 0)"

definition cv2_rectangle ::
  "store \<Rightarrow> address \<Rightarrow> point \<Rightarrow> point \<Rightarrow> colour \<Rightarrow> nat \<Rightarrow> error + store" where
  "cv2_rectangle s img pt1 pt2 col thickness =
     (if is_empty (s ! img) \<or> \<not> fits_int32 (fst pt1) \<or> \<not> fits_int32 (snd pt1) \<or>
         \<not> fits_int32 (fst pt2) \<or> \<not> fits_int32 (snd pt2)
      then Inl Cv2Error
      else Inr (draw s img (Rectangle pt1 pt2 col thickness)))"

definition cv2_putText ::
  "store \<Rightarrow> address \<Rightarrow> string \<Rightarrow> point \<Rightarrow> font \<Rightarrow> real \<Rightarrow> colour \<Rightarrow> nat
    \<Rightarrow> error + store" where
  "cv2_putText s img txt org face scale col thickness =
     (if is_empty (s ! img) \<or> \<not> fits_int32 (fst org) \<or> \<not> fits_int32 (snd org)
      then Inl Cv2Error
      else Inr (draw s img (PutText txt org face scale col thickness)))"

section \<open>Python sets of strings\<close>

text \<open>
  A Python set is kept as its elements in the order they were first added. \<open>list(s)\<close>
  walks the hash table by slot. The slot of an element depends on the string hashes of
  the running interpreter and on the order of insertion, so it is a parameter: \<open>slot h x\<close>
  is the slot of \<open>x\<close> in the set built by the insertions \<open>h\<close>.
\<close>

type_synonym pyset = "string list"

definition set_add :: "pyset \<Rightarrow> string \<Rightarrow> pyset" where
  \<comment> \<open>\<open>s.add(x)\<close>\<close>
  "set_add xs x = (if x \<in> set xs then xs else xs @ [x])"

definition py_list :: "(string list \<Rightarrow> string \<Rightarrow> nat) \<Rightarrow> pyset \<Rightarrow> string list" where
  \<comment> \<open>\<open>list(s)\<close>\<close>
  "py_list slot xs = sort_key (slot xs) xs"

section \<open>The detection model's results\<close>

type_synonym box = "real \<times> real \<times> real \<times> real"

record boxes =
  xyxy :: "box list"
  cls :: "real list"
  conf :: "real list"

record result =
  boxes :: boxes

record model =
  names :: "int \<rightharpoonup> string"
  predict :: "ndarray \<Rightarrow> real \<Rightarrow> result list"

definition zip3 :: "'a list \<Rightarrow> 'b list \<Rightarrow> 'c list \<Rightarrow> ('a \<times> 'b \<times> 'c) list" where
  \<comment> \<open>\<open>zip(xs, ys, zs)\<close>: stops with the shortest\<close>
  "zip3 xs ys zs = zip xs (zip ys zs)"

section \<open>app.py\<close>

definition TUMOR_INFO :: "string \<rightharpoonup> string" where
  "TUMOR_INFO = map_of
     [(''glioma'', ''**Glioma** is a common type of tumor that originates from glial cells in the brain or spine. Gliomas can be low-grade (slow-growing) or high-grade (aggressive). Symptoms depend on the tumor's location and may include headaches, seizures, or changes in personality. Treatment often involves surgery, radiation therapy, and chemotherapy.''),
      (''meningioma'', ''**Meningioma** is a tumor that arises from the meninges, the membranes that cover the brain and spinal cord. Most meningiomas are benign, but their location in the brain can still cause serious health problems. Common symptoms include headaches, vision problems, or seizures. Treatment may involve surgical removal or observation in non-symptomatic cases.''),
      (''pituitary'', ''**Pituitary tumors** form in the pituitary gland, which controls several hormone-producing glands in the body. These tumors may cause hormonal imbalances affecting growth, metabolism, and reproductive functions. Treatment may include medication, hormone therapy, or surgery.''),
      (''tumor'', ''**Brain Tumor** is a general term for abnormal growths of cells in the brain. Tumors can be benign (non-cancerous) or malignant (cancerous). They can affect brain function depending on their size and location. Common treatments include surgery, radiation, and chemotherapy.'')]"

subsection \<open>\<open>detect_tumor\<close>\<close>

fun detect_tumor_boxes ::
  "(int \<rightharpoonup> string) \<Rightarrow> address \<Rightarrow> (box \<times> real \<times> real) list \<Rightarrow> store \<Rightarrow> string list
    \<Rightarrow> store \<times> (error + string list)" where
  "detect_tumor_boxes nms annotated [] s labels = (s, Inr labels)"
| "detect_tumor_boxes nms annotated (((bx1, by1, bx2, by2), c, p) # rest) s labels =
       (let x1 = py_int bx1; y1 = py_int by1; x2 = py_int bx2; y2 = py_int by2;
            class_id = py_int c
        in case nms class_id of
             None \<Rightarrow> (s, Inl (KeyError class_id))
           | Some class_name \<Rightarrow>
              (let confidence = py_round2 (p * 100);
                   label = class_name @ '' ('' @ py_str_float confidence @ ''%)'';
                   labels' = labels @ [label]
               in case cv2_rectangle s annotated (x1, y1) (x2, y2) (255, 0, 0) 2 of
                    Inl e \<Rightarrow> (s, Inl e)
                  | Inr s1 \<Rightarrow>
                     (case cv2_putText s1 annotated label (x1, y1 - 10)
                             FONT_HERSHEY_SIMPLEX 0.7 (0, 255, 255) 2 of
                        Inl e \<Rightarrow> (s1, Inl e)
                      | Inr s2 \<Rightarrow> detect_tumor_boxes nms annotated rest s2 labels')))"

fun detect_tumor_results ::
  "(int \<rightharpoonup> string) \<Rightarrow> address \<Rightarrow> result list \<Rightarrow> store \<Rightarrow> string list
    \<Rightarrow> store \<times> (error + string list)" where
  "detect_tumor_results nms annotated [] s labels = (s, Inr labels)"
| "detect_tumor_results nms annotated (r # rs) s labels =
     (case detect_tumor_boxes nms annotated
             (zip3 (xyxy (boxes r)) (cls (boxes r)) (conf (boxes r))) s labels of
        (s', Inl e) \<Rightarrow> (s', Inl e)
      | (s', Inr labels') \<Rightarrow> detect_tumor_results nms annotated rs s' labels')"

definition detect_tumor ::
  "store \<Rightarrow> address \<Rightarrow> model \<Rightarrow> real \<Rightarrow> store \<times> (error + address \<times> string list)" where
  \<comment> \<open>\<open>img\<close> is the source's \<open>image\<close>, an RGB image, so
      \<open>np.array(image.convert("RGB"))\<close> is a new array with the image's content.\<close>
  "detect_tumor s img mdl threshold =
     (let (s0, image_np) = np_copy s img;
          results = predict mdl (s0 ! image_np) threshold;
          (s1, annotated) = np_copy s0 image_np
      in case detect_tumor_results (names mdl) annotated results s1 [] of
           (s2, Inl e) \<Rightarrow> (s2, Inl e)
         | (s2, Inr labels) \<Rightarrow> (s2, Inr (annotated, labels)))"

subsection \<open>\<open>annotate_and_extract\<close>\<close>

fun annotate_boxes ::
  "(int \<rightharpoonup> string) \<Rightarrow> address \<Rightarrow> (box \<times> real \<times> real) list \<Rightarrow> store \<Rightarrow> pyset
    \<Rightarrow> store \<times> (error + pyset)" where
  "annotate_boxes nms annotated_img [] s found_classes = (s, Inr found_classes)"
| "annotate_boxes nms annotated_img (((bx1, by1, bx2, by2), c, p) # rest) s found_classes =
       (let x1 = py_int bx1; y1 = py_int by1; x2 = py_int bx2; y2 = py_int by2;
            class_id = py_int c
        in case nms class_id of
             None \<Rightarrow> (s, Inl (KeyError class_id))
           | Some nm \<Rightarrow>
              (let class_name = lower nm;
                   confidence = py_round2 (p * 100);
                   label = class_name @ '' ('' @ py_str_float confidence @ ''%)''
               in case cv2_rectangle s annotated_img (x1, y1) (x2, y2) (255, 0, 0) 2 of
                    Inl e \<Rightarrow> (s, Inl e)
                  | Inr s1 \<Rightarrow>
                     (case cv2_putText s1 annotated_img label (x1, y1 - 10)
                             FONT_HERSHEY_SIMPLEX 0.8 (255, 255, 255) 2 of
                        Inl e \<Rightarrow> (s1, Inl e)
                      | Inr s2 \<Rightarrow>
                          annotate_boxes nms annotated_img rest s2
                            (set_add found_classes class_name))))"

fun annotate_results ::
  "(int \<rightharpoonup> string) \<Rightarrow> address \<Rightarrow> result list \<Rightarrow> store \<Rightarrow> pyset
    \<Rightarrow> store \<times> (error + pyset)" where
  "annotate_results nms annotated_img [] s found_classes = (s, Inr found_classes)"
| "annotate_results nms annotated_img (r # rs) s found_classes =
     (case annotate_boxes nms annotated_img
             (zip3 (xyxy (boxes r)) (cls (boxes r)) (conf (boxes r))) s found_classes of
        (s', Inl e) \<Rightarrow> (s', Inl e)
      | (s', Inr found_classes') \<Rightarrow> annotate_results nms annotated_img rs s' found_classes')"

definition annotate_and_extract ::
  "(string list \<Rightarrow> string \<Rightarrow> nat) \<Rightarrow> model \<Rightarrow> store \<Rightarrow> address \<Rightarrow> result list
    \<Rightarrow> store \<times> (error + address \<times> string list)" where
  \<comment> \<open>\<open>mdl\<close> is the module-level model whose \<open>names\<close> the function reads; \<open>slot\<close>
      is the interpreter's placement of set elements, which \<open>list(found_classes)\<close>
      follows.\<close>
  "annotate_and_extract slot mdl s image_np results =
     (let (s0, annotated_img) = np_copy s image_np
      in case annotate_results (names mdl) annotated_img results s0 [] of
           (s1, Inl e) \<Rightarrow> (s1, Inl e)
         | (s1, Inr found_classes) \<Rightarrow> (s1, Inr (annotated_img, py_list slot found_classes)))"

subsection \<open>The upload section\<close>

definition tumor_information :: "string \<Rightarrow> string" where
  \<comment> \<open>the markdown shown for one entry of \<open>found_classes\<close>\<close>
  "tumor_information tumor_type =
     (case TUMOR_INFO tumor_type of
        Some text \<Rightarrow> text
      | None \<Rightarrow> ''**'' @ title tumor_type @ ''**: Additional information will be added soon.'')"

definition download_file_name :: "datetime \<Rightarrow> string" where
  \<comment> \<open>\<open>file_name\<close> of the download button; \<open>now\<close> is what \<open>datetime.now()\<close> returns\<close>
  "download_file_name now = ''tumor_result_'' @ strftime_Ymd_HMS now @ ''.jpg''"

section \<open>Notions used to state the properties\<close>

definition is_digit :: "char \<Rightarrow> bool" where
  \<comment> \<open>a decimal digit character\<close>
  "is_digit c = (c \<in> set ''0123456789'')"

definition decimal_value :: "string \<Rightarrow> nat" where
  \<comment> \<open>the number a string of decimal digits denotes\<close>
  "decimal_value s = foldl (\<lambda>n c. 10 * n + (of_char c - 48)) 0 s"

definition valid_datetime :: "datetime \<Rightarrow> bool" where
  \<comment> \<open>a clock value with a four-digit year, as \<open>datetime.now()\<close> returns today\<close>
  "valid_datetime now =
     (1000 \<le> year now \<and> year now \<le> 9999 \<and> 1 \<le> month now \<and> month now \<le> 12 \<and>
      1 \<le> day now \<and> day now \<le> 31 \<and> hour now < 24 \<and> minute now < 60 \<and> second now < 60)"

definition detections :: "result list \<Rightarrow> (box \<times> real \<times> real) list" where
  \<comment> \<open>the detections in the order the two nested loops visit them\<close>
  "detections results =
     concat (map (\<lambda>r. zip3 (xyxy (boxes r)) (cls (boxes r)) (conf (boxes r))) results)"

definition class_name_of :: "(int \<rightharpoonup> string) \<Rightarrow> box \<times> real \<times> real \<Rightarrow> string option" where
  \<comment> \<open>what \<open>model.names[int(cls)]\<close> finds for a detection, \<open>None\<close> when the key is missing\<close>
  "class_name_of nms d = nms (py_int (fst (snd d)))"

definition label_text :: "string \<Rightarrow> real \<Rightarrow> string" where
  \<comment> \<open>the f-string \<open>"{class_name} ({confidence}%)"\<close> with \<open>confidence = round(float(conf) * 100, 2)\<close>\<close>
  "label_text nm p = nm @ '' ('' @ py_str_float (py_round2 (p * 100)) @ ''%)''"

fun annotate_calls :: "(int \<rightharpoonup> string) \<Rightarrow> box \<times> real \<times> real \<Rightarrow> draw_op list" where
  \<comment> \<open>the two drawing calls of one pass through the loop body of \<open>annotate_and_extract\<close>\<close>
  "annotate_calls nms ((bx1, by1, bx2, by2), c, p) =
     [Rectangle (py_int bx1, py_int by1) (py_int bx2, py_int by2) (255, 0, 0) 2,
      PutText (label_text (lower (the (nms (py_int c)))) p) (py_int bx1, py_int by1 - 10)
        FONT_HERSHEY_SIMPLEX 0.8 (255, 255, 255) 2]"

fun detect_calls :: "(int \<rightharpoonup> string) \<Rightarrow> box \<times> real \<times> real \<Rightarrow> draw_op list" where
  \<comment> \<open>the two drawing calls of one pass through the loop body of \<open>detect_tumor\<close>\<close>
  "detect_calls nms ((bx1, by1, bx2, by2), c, p) =
     [Rectangle (py_int bx1, py_int by1) (py_int bx2, py_int by2) (255, 0, 0) 2,
      PutText (label_text (the (nms (py_int c))) p) (py_int bx1, py_int by1 - 10)
        FONT_HERSHEY_SIMPLEX 0.7 (0, 255, 255) 2]"

definition draw_all :: "store \<Rightarrow> address \<Rightarrow> draw_op list \<Rightarrow> store" where
  \<comment> \<open>a sequence of drawing calls on the array at one address\<close>
  "draw_all s a ops = fold (\<lambda>op s'. draw s' a op) ops s"

definition found_of :: "store \<times> (error + address \<times> string list) \<Rightarrow> string set option" where
  \<comment> \<open>the set of the categories a call returned, \<open>None\<close> when it raised\<close>
  "found_of out =
     (case snd out of Inl e \<Rightarrow> None | Inr (annotated_img, found) \<Rightarrow> Some (set found))"

definition box_fits :: "box \<times> real \<times> real \<Rightarrow> bool" where
  \<comment> \<open>the coordinates the loop body passes to OpenCV for a detection are 32-bit integers\<close>
  "box_fits d =
     (fits_int32 (py_int (fst (fst d))) \<and> fits_int32 (py_int (fst (snd (fst d)))) \<and>
      fits_int32 (py_int (fst (snd (snd (fst d))))) \<and>
      fits_int32 (py_int (snd (snd (snd (fst d))))) \<and>
      fits_int32 (py_int (fst (snd (fst d))) - 10))"

fun first_error :: "(int \<rightharpoonup> string) \<Rightarrow> bool \<Rightarrow> (box \<times> real \<times> real) list \<Rightarrow> error option" where
  \<comment> \<open>the exception that ends the loops, if any; the flag says that the image has pixels\<close>
  "first_error nms has_pixels [] = None"
| "first_error nms has_pixels (d # ds) =
     (case class_name_of nms d of
        None \<Rightarrow> Some (KeyError (py_int (fst (snd d))))
      | Some nm \<Rightarrow>
          if has_pixels \<and> box_fits d then first_error nms has_pixels ds else Some Cv2Error)"

fun put_texts :: "draw_op list \<Rightarrow> string list" where
  \<comment> \<open>the texts of the \<open>cv2.putText\<close> calls, in call order\<close>
  "put_texts [] = []"
| "put_texts (PutText txt org face scale col thickness # ops) = txt # put_texts ops"
| "put_texts (Rectangle pt1 pt2 col thickness # ops) = put_texts ops"

definition calls_since :: "store \<Rightarrow> address \<Rightarrow> store \<Rightarrow> address \<Rightarrow> draw_op list" where
  \<comment> \<open>the drawing calls the array at \<open>a'\<close> received beyond those of the array at \<open>a\<close> it was copied from\<close>
  "calls_since s a s' a' = drop (length (drawn (s ! a))) (drawn (s' ! a'))"

text \<open>Example inputs.\<close>

definition example_clock :: datetime where
  "example_clock = \<lparr>year = 2026, month = 11, day = 3, hour = 9, minute = 5, second = 0\<rparr>"

definition seed6_slot :: "string list \<Rightarrow> string \<Rightarrow> nat" where
  \<comment> \<open>the slots CPython 3.11 started with \<open>PYTHONHASHSEED=6\<close> gives the class names used
      below: \<open>glioma\<close> and \<open>meningioma\<close> both hash to slot 3, and the one added second
      is moved on, \<open>glioma\<close> to slot 2 and \<open>meningioma\<close> to slot 0\<close>
  "seed6_slot h x =
     (if x = ''glioma'' then
        (if ''meningioma'' \<in> set (takeWhile (\<lambda>y. y \<noteq> ''glioma'') h) then 2 else 3)
      else if x = ''meningioma'' then
        (if ''glioma'' \<in> set (takeWhile (\<lambda>y. y \<noteq> ''meningioma'') h) then 0 else 3)
      else if x = ''pituitary'' then 4
      else if x = ''glioma '' then 5
      else 7)"

definition blank_scan :: ndarray where
  "blank_scan = \<lparr>pixels = replicate 20 (replicate 20 (0, 0, 0)), drawn = []\<rparr>"

definition two_tumours :: result where
  "two_tumours =
     \<lparr>boxes = \<lparr>xyxy = [(2, 12, 10, 18), (5, 5, 9, 9)], cls = [1, 0], conf = [0.8734, 0.5]\<rparr>\<rparr>"

definition two_tumours_reversed :: result where
  "two_tumours_reversed =
     \<lparr>boxes = \<lparr>xyxy = [(5, 5, 9, 9), (2, 12, 10, 18)], cls = [0, 1], conf = [0.5, 0.8734]\<rparr>\<rparr>"

definition fixed_predictions :: "ndarray \<Rightarrow> real \<Rightarrow> result list" where
  "fixed_predictions img threshold = [two_tumours]"

definition tumor_model :: model where
  "tumor_model =
     \<lparr>names = map_of [(0, ''Glioma''), (1, ''Meningioma''), (2, ''Pituitary'')],
      predict = fixed_predictions\<rparr>"



definition stray_result :: result where
  "stray_result =
     \<lparr>boxes = \<lparr>xyxy = [(1, 1, 4, 4), (5, 5, 9, 9)], cls = [5, 0], conf = [0.9, 0.8]\<rparr>\<rparr>"

definition outside_result :: result where
  "outside_result = \<lparr>boxes = \<lparr>xyxy = [(2, 25, 10, 30)], cls = [0], conf = [0.9]\<rparr>\<rparr>"

definition empty_result :: result where
  "empty_result = \<lparr>boxes = \<lparr>xyxy = [], cls = [], conf = []\<rparr>\<rparr>"

definition meningioma_result :: result where
  "meningioma_result =
     \<lparr>boxes = \<lparr>xyxy = [(2, 12, 10, 18), (2, 12, 10, 18)], cls = [1, 1],
               conf = [0.8734, 3663305 / 4194304]\<rparr>\<rparr>"

definition far_result :: result where
  "far_result = \<lparr>boxes = \<lparr>xyxy = [(2, 2, 3000000000, 10)], cls = [0], conf = [0.9]\<rparr>\<rparr>"

section \<open>Auxiliary lemmas\<close>

lemma lt10_cases: "d < 10 \<Longrightarrow> d = 0 \<or> d = 1 \<or> d = 2 \<or> d = 3 \<or> d = 4 \<or> d = 5 \<or> d = 6 \<or> d = 7 \<or> d = 8 \<or> d = (9::nat)"
  by arith

lemma digit_is_digit: "d < 10 \<Longrightarrow> is_digit (digit d)"
  using lt10_cases [of d] by (auto simp: is_digit_def digit_def)

lemma digit_value: "d < 10 \<Longrightarrow> (of_char (digit d) :: nat) - 48 = d"
  using lt10_cases [of d] by (auto simp: digit_def)

lemma digits_small: "n < 10 \<Longrightarrow> digits n = [digit n]"
  by (subst digits.simps) simp

lemma digits_step: "10 \<le> n \<Longrightarrow> digits n = digits (n div 10) @ [digit (n mod 10)]"
  by (subst digits.simps) simp

lemma pad2_eq:
  assumes "n < 100"
  shows "pad2 n = [digit (n div 10), digit (n mod 10)]"
proof (cases "n < 10")
  case True
  then show ?thesis by (simp add: pad2_def digits_small digit_def)
next
  case False
  then have "10 \<le> n" and "n div 10 < 10" using assms by simp_all
  then show ?thesis using False by (simp add: pad2_def digits_step digits_small)
qed

lemma digits4_eq:
  assumes "1000 \<le> n" "n \<le> 9999"
  shows "digits n = [digit (n div 10 div 10 div 10), digit (n div 10 div 10 mod 10),
                     digit (n div 10 mod 10), digit (n mod 10)]"
proof -
  have n1: "10 \<le> n" and n2: "10 \<le> n div 10" and n3: "10 \<le> n div 10 div 10"
    and n4: "n div 10 div 10 div 10 < 10"
    using assms by simp_all
  show ?thesis
    by (simp add: digits_step [OF n1] digits_step [OF n2] digits_step [OF n3] digits_small [OF n4])
qed

lemma two_digits:
  assumes "n < 100"
  shows "length (pad2 n) = 2 \<and> list_all is_digit (pad2 n) \<and> decimal_value (pad2 n) = n"
proof -
  have "n div 10 < 10" "n mod 10 < 10" using assms by simp_all
  then show ?thesis
    by (simp add: pad2_eq [OF assms] digit_is_digit digit_value decimal_value_def)
qed

lemma four_digits:
  assumes "1000 \<le> n" "n \<le> 9999"
  shows "length (digits n) = 4 \<and> list_all is_digit (digits n) \<and> decimal_value (digits n) = n"
proof -
  have "n div 10 div 10 div 10 < 10" "n div 10 div 10 mod 10 < 10" "n div 10 mod 10 < 10"
    "n mod 10 < 10"
    using assms by simp_all
  then show ?thesis
    by (simp add: digits4_eq [OF assms] digit_is_digit digit_value decimal_value_def)
qed

lemma example_clock_valid: "valid_datetime example_clock"
  by (simp add: valid_datetime_def example_clock_def)

lemma example_clock_name:
  "download_file_name example_clock = ''tumor_result_20261103_090500.jpg''"
  by (simp add: download_file_name_def strftime_Ymd_HMS_def example_clock_def pad2_def
      digits.simps digit_def)

lemma draw_all_Nil [simp]: "draw_all s a [] = s"
  by (simp add: draw_all_def)

lemma draw_all_Cons: "draw_all s a (op # ops) = draw_all (draw s a op) a ops"
  by (simp add: draw_all_def)

lemma draw_all_append: "draw_all s a (xs @ ys) = draw_all (draw_all s a xs) a ys"
  by (simp add: draw_all_def)

lemma draw_length [simp]: "length (draw s a op) = length s"
  by (simp add: draw_def)

lemma draw_all_length [simp]: "length (draw_all s a ops) = length (s :: store)"
  by (induction ops arbitrary: s) (simp_all add: draw_all_Cons)

lemma draw_other: "b \<noteq> a \<Longrightarrow> draw s a op ! b = s ! b"
  by (simp add: draw_def)

lemma draw_all_other: "b \<noteq> a \<Longrightarrow> draw_all s a ops ! b = s ! b"
  by (induction ops arbitrary: s) (simp_all add: draw_all_Cons draw_other)

lemma draw_same: "a < length s \<Longrightarrow> draw s a op ! a = (s ! a)\<lparr>drawn := drawn (s ! a) @ [op]\<rparr>"
  by (simp add: draw_def)

lemma draw_all_same:
  "a < length s \<Longrightarrow> draw_all s a ops ! a = (s ! a)\<lparr>drawn := drawn (s ! a) @ ops\<rparr>"
proof (induction ops arbitrary: s)
  case Nil
  then show ?case by simp
next
  case (Cons op ops)
  then have "a < length (draw s a op)" by simp
  from Cons.IH [OF this] Cons.prems show ?case
    by (simp add: draw_all_Cons draw_same)
qed

lemma draw_pixels: "pixels (draw s a op ! b) = pixels (s ! b)"
  by (cases "a < length s"; cases "b = a") (simp_all add: draw_def list_update_beyond)

lemma draw_all_pixels: "pixels (draw_all s a ops ! b) = pixels (s ! b)"
  by (induction ops arbitrary: s) (simp_all add: draw_all_Cons draw_pixels)

lemma put_texts_append: "put_texts (xs @ ys) = put_texts xs @ put_texts ys"
  by (induction xs rule: put_texts.induct) simp_all

lemma put_texts_annotate_calls:
  "put_texts (concat (map (annotate_calls nms) ds)) =
     map (\<lambda>d. label_text (lower (the (class_name_of nms d))) (snd (snd d))) ds"
proof (induction ds)
  case Nil
  then show ?case by simp
next
  case (Cons d ds)
  obtain bx1 by1 bx2 by2 c p where "d = ((bx1, by1, bx2, by2), c, p)"
    by (metis surj_pair)
  with Cons show ?case by (simp add: put_texts_append class_name_of_def)
qed

lemma put_texts_detect_calls:
  "put_texts (concat (map (detect_calls nms) ds)) =
     map (\<lambda>d. label_text (the (class_name_of nms d)) (snd (snd d))) ds"
proof (induction ds)
  case Nil
  then show ?case by simp
next
  case (Cons d ds)
  obtain bx1 by1 bx2 by2 c p where "d = ((bx1, by1, bx2, by2), c, p)"
    by (metis surj_pair)
  with Cons show ?case by (simp add: put_texts_append class_name_of_def)
qed

lemma unknown_x_absent: "TUMOR_INFO ''unknown_x'' = None"
  by (simp add: TUMOR_INFO_def)

lemma title_unknown_x: "title ''unknown_x'' = ''Unknown_X''"
  by (simp add: title_def is_lower_def is_upper_def upper_char_def lower_char_def char_of_eq_iff)

lemma lower_Glioma: "lower ''Glioma'' = ''glioma''"
  by (simp add: lower_def lower_char_def is_upper_def char_of_eq_iff)



lemma lower_Meningioma: "lower ''Meningioma'' = ''meningioma''"
  by (simp add: lower_def lower_char_def is_upper_def char_of_eq_iff)

lemmas label_text_eval =
  label_text_def py_str_float_def py_round2_def round_half_even_def digits.simps digit_def Let_def


lemma detections_two_tumours:
  "detections [two_tumours] = [((2, 12, 10, 18), 1, 0.8734), ((5, 5, 9, 9), 0, 0.5)]"
  by (simp add: detections_def zip3_def two_tumours_def)

lemma detections_two_tumours_reversed:
  "detections [two_tumours_reversed] = [((5, 5, 9, 9), 0, 0.5), ((2, 12, 10, 18), 1, 0.8734)]"
  by (simp add: detections_def zip3_def two_tumours_reversed_def)

lemma detections_stray: "detections [stray_result] = [((1, 1, 4, 4), 5, 0.9), ((5, 5, 9, 9), 0, 0.8)]"
  by (simp add: detections_def zip3_def stray_result_def)

lemma detections_outside: "detections [outside_result] = [((2, 25, 10, 30), 0, 0.9)]"
  by (simp add: detections_def zip3_def outside_result_def)

lemma detections_empty: "detections [empty_result] = []"
  by (simp add: detections_def zip3_def empty_result_def)

lemma detections_meningioma:
  "detections [meningioma_result] =
     [((2, 12, 10, 18), 1, 0.8734), ((2, 12, 10, 18), 1, 3663305 / 4194304)]"
  by (simp add: detections_def zip3_def meningioma_result_def)

lemma tumor_model_names:
  "class_name_of (names tumor_model) (bx, 0, p) = Some ''Glioma''"
  "class_name_of (names tumor_model) (bx, 1, p) = Some ''Meningioma''"
  "class_name_of (names tumor_model) (bx, 5, p) = None"
  by (simp_all add: class_name_of_def tumor_model_def py_int_def)


lemma blank_scan_shape: "shape blank_scan = (20, 20)"
  by (simp add: shape_def blank_scan_def eval_nat_numeral)

lemma label_glioma_90: "label_text ''glioma'' 0.9 = ''glioma (90.0%)''"
  by (simp add: label_text_eval)

lemma is_empty_pixels: "pixels a = pixels b \<Longrightarrow> is_empty a = is_empty b"
  by (simp add: is_empty_def shape_def)

lemma draw_is_empty [simp]: "is_empty (draw s a op ! b) = is_empty (s ! b)"
  by (rule is_empty_pixels) (rule draw_pixels)

lemma draw_all_is_empty [simp]: "is_empty (draw_all s a ops ! b) = is_empty (s ! b)"
  by (rule is_empty_pixels) (rule draw_all_pixels)

lemma set_set_add [simp]: "set (set_add f x) = insert x (set f)"
  by (auto simp: set_add_def)

lemma set_foldl_add: "set (foldl (\<lambda>f d. set_add f (g d)) f ds) = set f \<union> g ` set ds"
  by (induction ds arbitrary: f) auto

lemma set_py_list [simp]: "set (py_list slot h) = set h"
  by (simp add: py_list_def)

lemma py_list_Nil [simp]: "py_list slot [] = []"
  by (simp add: py_list_def)

lemma annotate_boxes_unknown:
  assumes "class_name_of nms d = None"
  shows "annotate_boxes nms a (d # ds) s f = (s, Inl (KeyError (py_int (fst (snd d)))))"
proof -
  obtain bx1 by1 bx2 by2 c p where "d = ((bx1, by1, bx2, by2), c, p)"
    by (metis surj_pair)
  with assms show ?thesis by (simp add: class_name_of_def Let_def)
qed

lemma annotate_boxes_fine:
  assumes "class_name_of nms d = Some nm" and "\<not> is_empty (s ! a)" and "box_fits d"
  shows "annotate_boxes nms a (d # ds) s f =
           annotate_boxes nms a ds (draw_all s a (annotate_calls nms d)) (set_add f (lower nm))"
proof -
  obtain bx1 by1 bx2 by2 c p where "d = ((bx1, by1, bx2, by2), c, p)"
    by (metis surj_pair)
  with assms show ?thesis
    by (simp add: class_name_of_def box_fits_def Let_def cv2_rectangle_def cv2_putText_def
        draw_all_Cons label_text_def)
qed

lemma annotate_boxes_undrawable:
  assumes "class_name_of nms d = Some nm" and "is_empty (s ! a) \<or> \<not> box_fits d"
  shows "\<exists>s'. annotate_boxes nms a (d # ds) s f = (s', Inl Cv2Error) \<and> length s' = length s \<and>
              (\<forall>b. b \<noteq> a \<longrightarrow> s' ! b = s ! b) \<and> (\<forall>b. pixels (s' ! b) = pixels (s ! b))"
proof -
  obtain bx1 by1 bx2 by2 c p where "d = ((bx1, by1, bx2, by2), c, p)"
    by (metis surj_pair)
  with assms show ?thesis
    by (auto simp: class_name_of_def box_fits_def Let_def cv2_rectangle_def cv2_putText_def
        draw_other draw_pixels)
qed

lemma detect_tumor_boxes_unknown:
  assumes "class_name_of nms d = None"
  shows "detect_tumor_boxes nms a (d # ds) s ls = (s, Inl (KeyError (py_int (fst (snd d)))))"
proof -
  obtain bx1 by1 bx2 by2 c p where "d = ((bx1, by1, bx2, by2), c, p)"
    by (metis surj_pair)
  with assms show ?thesis by (simp add: class_name_of_def Let_def)
qed

lemma detect_tumor_boxes_fine:
  assumes "class_name_of nms d = Some nm" and "\<not> is_empty (s ! a)" and "box_fits d"
  shows "detect_tumor_boxes nms a (d # ds) s ls =
           detect_tumor_boxes nms a ds (draw_all s a (detect_calls nms d))
             (ls @ [label_text nm (snd (snd d))])"
proof -
  obtain bx1 by1 bx2 by2 c p where "d = ((bx1, by1, bx2, by2), c, p)"
    by (metis surj_pair)
  with assms show ?thesis
    by (simp add: class_name_of_def box_fits_def Let_def cv2_rectangle_def cv2_putText_def
        draw_all_Cons label_text_def)
qed

lemma detect_tumor_boxes_undrawable:
  assumes "class_name_of nms d = Some nm" and "is_empty (s ! a) \<or> \<not> box_fits d"
  shows "snd (detect_tumor_boxes nms a (d # ds) s ls) = Inl Cv2Error"
proof -
  obtain bx1 by1 bx2 by2 c p where "d = ((bx1, by1, bx2, by2), c, p)"
    by (metis surj_pair)
  with assms show ?thesis
    by (auto simp: class_name_of_def box_fits_def Let_def cv2_rectangle_def cv2_putText_def)
qed

lemma annotate_boxes_outcome:
  "snd (annotate_boxes nms a ds s f) =
     (case first_error nms (\<not> is_empty (s ! a)) ds of
        Some e \<Rightarrow> Inl e
      | None \<Rightarrow> Inr (foldl (\<lambda>f d. set_add f (lower (the (class_name_of nms d)))) f ds))"
proof (induction ds arbitrary: s f)
  case Nil
  then show ?case by simp
next
  case (Cons d ds)
  show ?case
  proof (cases "class_name_of nms d")
    case None
    then show ?thesis by (simp add: annotate_boxes_unknown)
  next
    case (Some nm)
    show ?thesis
    proof (cases "\<not> is_empty (s ! a) \<and> box_fits d")
      case True
      with Some Cons.IH [of "draw_all s a (annotate_calls nms d)" "set_add f (lower nm)"]
      show ?thesis by (simp add: annotate_boxes_fine split: option.splits)
    next
      case False
      then have "is_empty (s ! a) \<or> \<not> box_fits d" by simp
      from annotate_boxes_undrawable [OF Some this, of ds f] Some False show ?thesis by auto
    qed
  qed
qed

lemma detect_tumor_boxes_outcome:
  "snd (detect_tumor_boxes nms a ds s ls) =
     (case first_error nms (\<not> is_empty (s ! a)) ds of
        Some e \<Rightarrow> Inl e
      | None \<Rightarrow> Inr (ls @ map (\<lambda>d. label_text (the (class_name_of nms d)) (snd (snd d))) ds))"
proof (induction ds arbitrary: s ls)
  case Nil
  then show ?case by simp
next
  case (Cons d ds)
  show ?case
  proof (cases "class_name_of nms d")
    case None
    then show ?thesis by (simp add: detect_tumor_boxes_unknown)
  next
    case (Some nm)
    show ?thesis
    proof (cases "\<not> is_empty (s ! a) \<and> box_fits d")
      case True
      with Some Cons.IH [of "draw_all s a (detect_calls nms d)" "ls @ [label_text nm (snd (snd d))]"]
      show ?thesis by (simp add: detect_tumor_boxes_fine split: option.splits)
    next
      case False
      then have "is_empty (s ! a) \<or> \<not> box_fits d" by simp
      from detect_tumor_boxes_undrawable [OF Some this, of ds ls] Some False show ?thesis by auto
    qed
  qed
qed

lemma annotate_boxes_store:
  "first_error nms (\<not> is_empty (s ! a)) ds = None \<Longrightarrow>
   fst (annotate_boxes nms a ds s f) = draw_all s a (concat (map (annotate_calls nms) ds))"
proof (induction ds arbitrary: s f)
  case Nil
  then show ?case by simp
next
  case (Cons d ds)
  from Cons.prems obtain nm where nm: "class_name_of nms d = Some nm"
    by (cases "class_name_of nms d") simp_all
  with Cons.prems have ok: "\<not> is_empty (s ! a)" "box_fits d"
    and rest: "first_error nms (\<not> is_empty (s ! a)) ds = None"
    by (simp_all split: if_splits)
  from rest have "first_error nms (\<not> is_empty (draw_all s a (annotate_calls nms d) ! a)) ds = None"
    by simp
  from Cons.IH [OF this] show ?case
    by (simp add: annotate_boxes_fine [OF nm ok] draw_all_append)
qed

lemma detect_tumor_boxes_store:
  "first_error nms (\<not> is_empty (s ! a)) ds = None \<Longrightarrow>
   fst (detect_tumor_boxes nms a ds s ls) = draw_all s a (concat (map (detect_calls nms) ds))"
proof (induction ds arbitrary: s ls)
  case Nil
  then show ?case by simp
next
  case (Cons d ds)
  from Cons.prems obtain nm where nm: "class_name_of nms d = Some nm"
    by (cases "class_name_of nms d") simp_all
  with Cons.prems have ok: "\<not> is_empty (s ! a)" "box_fits d"
    and rest: "first_error nms (\<not> is_empty (s ! a)) ds = None"
    by (simp_all split: if_splits)
  from rest have "first_error nms (\<not> is_empty (draw_all s a (detect_calls nms d) ! a)) ds = None"
    by simp
  from Cons.IH [OF this] show ?case
    by (simp add: detect_tumor_boxes_fine [OF nm ok] draw_all_append)
qed

lemma annotate_boxes_frame:
  "annotate_boxes nms a ds s f = (s', r) \<Longrightarrow>
   length s' = length s \<and> (\<forall>b. b \<noteq> a \<longrightarrow> s' ! b = s ! b) \<and>
   (\<forall>b. pixels (s' ! b) = pixels (s ! b))"
proof (induction ds arbitrary: s f)
  case Nil
  then show ?case by simp
next
  case (Cons d ds)
  show ?case
  proof (cases "class_name_of nms d")
    case None
    with Cons.prems show ?thesis by (simp add: annotate_boxes_unknown)
  next
    case (Some nm)
    show ?thesis
    proof (cases "\<not> is_empty (s ! a) \<and> box_fits d")
      case True
      with Some Cons.prems have
        "annotate_boxes nms a ds (draw_all s a (annotate_calls nms d)) (set_add f (lower nm)) =
           (s', r)"
        by (simp add: annotate_boxes_fine)
      from Cons.IH [OF this] show ?thesis by (simp add: draw_all_other draw_all_pixels)
    next
      case False
      then have "is_empty (s ! a) \<or> \<not> box_fits d" by simp
      from annotate_boxes_undrawable [OF Some this, of ds f] Cons.prems show ?thesis by auto
    qed
  qed
qed

lemma first_error_None:
  "first_error nms u ds = None \<longleftrightarrow>
     (\<forall>d\<in>set ds. class_name_of nms d \<noteq> None \<and> u \<and> box_fits d)"
  by (induction ds) (auto split: option.splits)

lemma first_error_cases:
  "first_error nms u ds = None \<or> first_error nms u ds = Some Cv2Error \<or>
   (\<exists>k. nms k = None \<and> first_error nms u ds = Some (KeyError k))"
  by (induction ds) (auto simp: class_name_of_def split: option.splits)

lemma first_error_resolved:
  "\<forall>d\<in>set ds. class_name_of nms d \<noteq> None \<Longrightarrow>
   first_error nms u ds = None \<or> first_error nms u ds = Some Cv2Error"
  by (induction ds) (auto split: option.splits)


lemma annotate_boxes_append:
  "annotate_boxes nms a (xs @ ys) s f =
     (case annotate_boxes nms a xs s f of
        (s', Inl e) \<Rightarrow> (s', Inl e)
      | (s', Inr f') \<Rightarrow> annotate_boxes nms a ys s' f')"
proof (induction xs arbitrary: s f)
  case Nil
  then show ?case by simp
next
  case (Cons d xs)
  obtain bx1 by1 bx2 by2 c p where "d = ((bx1, by1, bx2, by2), c, p)"
    by (metis surj_pair)
  with Cons show ?case
    by (simp add: Let_def split: option.splits sum.splits)
qed

lemma detect_tumor_boxes_append:
  "detect_tumor_boxes nms a (xs @ ys) s ls =
     (case detect_tumor_boxes nms a xs s ls of
        (s', Inl e) \<Rightarrow> (s', Inl e)
      | (s', Inr ls') \<Rightarrow> detect_tumor_boxes nms a ys s' ls')"
proof (induction xs arbitrary: s ls)
  case Nil
  then show ?case by simp
next
  case (Cons d xs)
  obtain bx1 by1 bx2 by2 c p where "d = ((bx1, by1, bx2, by2), c, p)"
    by (metis surj_pair)
  with Cons show ?case
    by (simp add: Let_def split: option.splits sum.splits)
qed

lemma annotate_results_detections:
  "annotate_results nms a rs s f = annotate_boxes nms a (detections rs) s f"
proof (induction rs arbitrary: s f)
  case Nil
  then show ?case by (simp add: detections_def)
next
  case (Cons r rs)
  have "detections (r # rs) = zip3 (xyxy (boxes r)) (cls (boxes r)) (conf (boxes r)) @ detections rs"
    by (simp add: detections_def)
  then show ?case
    by (simp add: annotate_boxes_append Cons.IH split: prod.splits sum.splits)
qed

lemma detect_tumor_results_detections:
  "detect_tumor_results nms a rs s ls = detect_tumor_boxes nms a (detections rs) s ls"
proof (induction rs arbitrary: s ls)
  case Nil
  then show ?case by (simp add: detections_def)
next
  case (Cons r rs)
  have "detections (r # rs) = zip3 (xyxy (boxes r)) (cls (boxes r)) (conf (boxes r)) @ detections rs"
    by (simp add: detections_def)
  then show ?case
    by (simp add: detect_tumor_boxes_append Cons.IH split: prod.splits sum.splits)
qed

lemma annotate_and_extract_unfold:
  "annotate_and_extract slot mdl s a rs =
     (case annotate_boxes (names mdl) (length s) (detections rs) (s @ [s ! a]) [] of
        (s1, Inl e) \<Rightarrow> (s1, Inl e)
      | (s1, Inr h) \<Rightarrow> (s1, Inr (length s, py_list slot h)))"
  by (simp add: annotate_and_extract_def np_copy_def annotate_results_detections)

lemma annotate_and_extract_snd:
  "snd (annotate_and_extract slot mdl s a rs) =
     (case first_error (names mdl) (\<not> is_empty (s ! a)) (detections rs) of
        Some e \<Rightarrow> Inl e
      | None \<Rightarrow>
          Inr (length s,
               py_list slot
                 (foldl (\<lambda>f d. set_add f (lower (the (class_name_of (names mdl) d)))) []
                    (detections rs))))"
proof -
  obtain s1 r1 where b:
    "annotate_boxes (names mdl) (length s) (detections rs) (s @ [s ! a]) [] = (s1, r1)"
    by (cases "annotate_boxes (names mdl) (length s) (detections rs) (s @ [s ! a]) []")
  from annotate_boxes_outcome [of "names mdl" "length s" "detections rs" "s @ [s ! a]" "[]"] b
  have "r1 =
     (case first_error (names mdl) (\<not> is_empty (s ! a)) (detections rs) of
        Some e \<Rightarrow> Inl e
      | None \<Rightarrow> Inr (foldl (\<lambda>f d. set_add f (lower (the (class_name_of (names mdl) d)))) []
                       (detections rs)))"
    by simp
  with b show ?thesis
    by (auto simp: annotate_and_extract_unfold split: option.splits)
qed

lemma found_of_eq:
  "found_of (annotate_and_extract slot mdl s a rs) =
     (case first_error (names mdl) (\<not> is_empty (s ! a)) (detections rs) of
        Some e \<Rightarrow> None
      | None \<Rightarrow> Some ((\<lambda>d. lower (the (class_name_of (names mdl) d))) ` set (detections rs)))"
  by (simp add: found_of_def annotate_and_extract_snd set_foldl_add split: option.splits)

lemma annotate_and_extract_fst:
  assumes "first_error (names mdl) (\<not> is_empty (s ! a)) (detections rs) = None"
  shows "fst (annotate_and_extract slot mdl s a rs) =
           draw_all (s @ [s ! a]) (length s)
             (concat (map (annotate_calls (names mdl)) (detections rs)))"
proof -
  from assms
  have "first_error (names mdl) (\<not> is_empty ((s @ [s ! a]) ! length s)) (detections rs) = None"
    by simp
  from annotate_boxes_store [OF this, of "[]"] show ?thesis
    by (auto simp: annotate_and_extract_unfold split: prod.splits sum.splits)
qed

lemma annotated_content:
  assumes "first_error (names mdl) (\<not> is_empty (s ! a)) (detections rs) = None"
  shows "fst (annotate_and_extract slot mdl s a rs) ! length s =
           (s ! a)\<lparr>drawn := drawn (s ! a) @
              concat (map (annotate_calls (names mdl)) (detections rs))\<rparr>"
proof -
  have "length s < length (s @ [s ! a])" by simp
  from draw_all_same [OF this] show ?thesis
    by (simp add: annotate_and_extract_fst [OF assms])
qed

lemma calls_since_annotate:
  assumes "first_error (names mdl) (\<not> is_empty (s ! a)) (detections rs) = None"
  shows "calls_since s a (fst (annotate_and_extract slot mdl s a rs)) (length s) =
           concat (map (annotate_calls (names mdl)) (detections rs))"
  by (simp add: calls_since_def annotated_content [OF assms])

lemma annotate_and_extract_frame:
  assumes "annotate_and_extract slot mdl s a rs = (s', r)"
  shows "length s' = Suc (length s) \<and> take (length s) s' = s \<and>
         pixels (s' ! length s) = pixels (s ! a) \<and>
         (\<forall>a' found. r = Inr (a', found) \<longrightarrow> a' = length s)"
proof -
  obtain s1 r1 where b:
    "annotate_boxes (names mdl) (length s) (detections rs) (s @ [s ! a]) [] = (s1, r1)"
    by (cases "annotate_boxes (names mdl) (length s) (detections rs) (s @ [s ! a]) []")
  with assms have s1: "s1 = s'" and r: "\<forall>a' found. r = Inr (a', found) \<longrightarrow> a' = length s"
    by (auto simp: annotate_and_extract_unfold split: sum.splits)
  from annotate_boxes_frame [OF b] s1
  have len: "length s' = Suc (length s)"
    and oth: "\<forall>b. b \<noteq> length s \<longrightarrow> s' ! b = (s @ [s ! a]) ! b"
    and pix: "\<forall>b. pixels (s' ! b) = pixels ((s @ [s ! a]) ! b)"
    by simp_all
  have "take (length s) s' = s"
  proof (rule nth_equalityI)
    show "length (take (length s) s') = length s" using len by simp
  next
    fix i assume "i < length (take (length s) s')"
    then have i: "i < length s" by simp
    then have "s' ! i = (s @ [s ! a]) ! i" using oth by simp
    with i show "take (length s) s' ! i = s ! i" by (simp add: nth_append)
  qed
  moreover from pix have "pixels (s' ! length s) = pixels (s ! a)" by simp
  ultimately show ?thesis using len r by simp
qed

lemma detect_tumor_unfold:
  assumes "img < length s"
  shows "detect_tumor s img mdl threshold =
     (case detect_tumor_boxes (names mdl) (Suc (length s))
             (detections (predict mdl (s ! img) threshold)) (s @ [s ! img, s ! img]) [] of
        (s2, Inl e) \<Rightarrow> (s2, Inl e)
      | (s2, Inr labels) \<Rightarrow> (s2, Inr (Suc (length s), labels)))"
  by (simp add: detect_tumor_def np_copy_def detect_tumor_results_detections Let_def nth_append)

lemma detect_tumor_snd:
  assumes "img < length s"
  shows "snd (detect_tumor s img mdl threshold) =
     (case first_error (names mdl) (\<not> is_empty (s ! img))
             (detections (predict mdl (s ! img) threshold)) of
        Some e \<Rightarrow> Inl e
      | None \<Rightarrow>
          Inr (Suc (length s),
               map (\<lambda>d. label_text (the (class_name_of (names mdl) d)) (snd (snd d)))
                 (detections (predict mdl (s ! img) threshold))))"
proof -
  obtain s1 r1 where b:
    "detect_tumor_boxes (names mdl) (Suc (length s))
       (detections (predict mdl (s ! img) threshold)) (s @ [s ! img, s ! img]) [] = (s1, r1)"
    by (cases "detect_tumor_boxes (names mdl) (Suc (length s))
       (detections (predict mdl (s ! img) threshold)) (s @ [s ! img, s ! img]) []")
  from detect_tumor_boxes_outcome [of "names mdl" "Suc (length s)"
      "detections (predict mdl (s ! img) threshold)" "s @ [s ! img, s ! img]" "[]"] b
  have "r1 =
     (case first_error (names mdl) (\<not> is_empty (s ! img))
             (detections (predict mdl (s ! img) threshold)) of
        Some e \<Rightarrow> Inl e
      | None \<Rightarrow> Inr (map (\<lambda>d. label_text (the (class_name_of (names mdl) d)) (snd (snd d)))
                       (detections (predict mdl (s ! img) threshold))))"
    by (auto simp: nth_append split: option.splits)
  with b show ?thesis
    by (auto simp: detect_tumor_unfold [OF assms] split: option.splits)
qed

lemma calls_since_detect:
  assumes a: "img < length s"
    and ok: "first_error (names mdl) (\<not> is_empty (s ! img))
               (detections (predict mdl (s ! img) threshold)) = None"
  shows "calls_since s img (fst (detect_tumor s img mdl threshold)) (Suc (length s)) =
           concat (map (detect_calls (names mdl)) (detections (predict mdl (s ! img) threshold)))"
proof -
  have l: "Suc (length s) < length (s @ [s ! img, s ! img])" by simp
  from ok have "first_error (names mdl) (\<not> is_empty ((s @ [s ! img, s ! img]) ! Suc (length s)))
               (detections (predict mdl (s ! img) threshold)) = None"
    by (simp add: nth_append)
  from detect_tumor_boxes_store [OF this, of "[]"]
  have "fst (detect_tumor s img mdl threshold) =
          draw_all (s @ [s ! img, s ! img]) (Suc (length s))
            (concat (map (detect_calls (names mdl)) (detections (predict mdl (s ! img) threshold))))"
    by (auto simp: detect_tumor_unfold [OF a] split: prod.splits sum.splits)
  with draw_all_same [OF l] show ?thesis
    by (simp add: calls_since_def nth_append)
qed

lemma detections_far: "detections [far_result] = [((2, 2, 3000000000, 10), 0, 0.9)]"
  by (simp add: detections_def zip3_def far_result_def)

lemma blank_scan_has_pixels: "\<not> is_empty blank_scan"
  by (simp add: is_empty_def blank_scan_shape)

lemma example_boxes_fit:
  "box_fits ((1, 1, 4, 4), c, p)" "box_fits ((5, 5, 9, 9), c, p)" "box_fits ((2, 12, 10, 18), c, p)"
  "box_fits ((2, 25, 10, 30), c, p)" "\<not> box_fits ((2, 2, 3000000000, 10), c, p)"
  by (simp_all add: box_fits_def fits_int32_def py_int_def)

lemma seed6_glioma_meningioma:
  "py_list seed6_slot [''meningioma'', ''glioma''] = [''glioma'', ''meningioma'']"
  "py_list seed6_slot [''glioma'', ''meningioma''] = [''meningioma'', ''glioma'']"
  by (simp_all add: py_list_def seed6_slot_def)


lemma no_error_two_tumours:
  "first_error (names tumor_model) True (detections [two_tumours]) = None"
  by (simp add: first_error_None detections_two_tumours tumor_model_names example_boxes_fit)

lemma no_error_two_tumours_reversed:
  "first_error (names tumor_model) True (detections [two_tumours_reversed]) = None"
  by (simp add: first_error_None detections_two_tumours_reversed tumor_model_names
      example_boxes_fit)

lemma no_error_outside:
  "first_error (names tumor_model) True (detections [outside_result]) = None"
  by (simp add: first_error_None detections_outside tumor_model_names example_boxes_fit)

lemma no_error_meningioma:
  "first_error (names tumor_model) True (detections [meningioma_result]) = None"
  by (simp add: first_error_None detections_meningioma tumor_model_names example_boxes_fit)

lemma error_stray:
  "first_error (names tumor_model) True (detections [stray_result]) = Some (KeyError 5)"
  by (simp add: detections_stray tumor_model_names py_int_def)

lemma error_far:
  "first_error (names tumor_model) True (detections [far_result]) = Some Cv2Error"
  by (simp add: detections_far tumor_model_names example_boxes_fit)


lemma returned_two_tumours:
  "snd (annotate_and_extract seed6_slot tumor_model [blank_scan] 0 [two_tumours]) =
     Inr (1, [''glioma'', ''meningioma''])"
  by (simp add: annotate_and_extract_snd blank_scan_has_pixels example_boxes_fit no_error_two_tumours detections_two_tumours
      tumor_model_names lower_Glioma lower_Meningioma set_add_def seed6_glioma_meningioma)

lemma returned_two_tumours_reversed:
  "snd (annotate_and_extract seed6_slot tumor_model [blank_scan] 0 [two_tumours_reversed]) =
     Inr (1, [''meningioma'', ''glioma''])"
  by (simp add: annotate_and_extract_snd blank_scan_has_pixels example_boxes_fit no_error_two_tumours_reversed
      detections_two_tumours_reversed tumor_model_names lower_Glioma lower_Meningioma
      set_add_def seed6_glioma_meningioma)

lemma stray_raises:
  "snd (annotate_and_extract seed6_slot tumor_model [blank_scan] 0 [stray_result]) =
     Inl (KeyError 5)"
  by (simp add: annotate_and_extract_snd blank_scan_has_pixels example_boxes_fit error_stray)

lemma far_raises:
  "snd (annotate_and_extract seed6_slot tumor_model [blank_scan] 0 [far_result]) = Inl Cv2Error"
  by (simp add: annotate_and_extract_snd blank_scan_has_pixels example_boxes_fit error_far)

lemma returned_outside:
  "snd (annotate_and_extract seed6_slot tumor_model [blank_scan] 0 [outside_result]) =
     Inr (1, [''glioma''])"
  by (simp add: annotate_and_extract_snd blank_scan_has_pixels example_boxes_fit no_error_outside detections_outside
      tumor_model_names lower_Glioma set_add_def py_list_def)

lemma returned_meningioma:
  "snd (annotate_and_extract seed6_slot tumor_model [blank_scan] 0 [meningioma_result]) =
     Inr (1, [''meningioma''])"
  by (simp add: annotate_and_extract_snd blank_scan_has_pixels example_boxes_fit no_error_meningioma detections_meningioma
      tumor_model_names lower_Meningioma set_add_def py_list_def)

section \<open>The claims\<close>




text \<open>
  C2, as stated: the aggregated output is the same for every permutation of a detection
  sequence. The code returns \<open>list(found_classes)\<close>, and the order of that list follows
  the slots of the set, which depend on the order of insertion when two names meet in one
  slot. With the string hashes of \<open>PYTHONHASHSEED=6\<close> a meningioma followed by a glioma
  returns \<open>['glioma', 'meningioma']\<close>, and the same two detections in the other order
  return \<open>['meningioma', 'glioma']\<close>.
\<close>

theorem list_order_counterexample:
  "mset (detections [two_tumours_reversed]) = mset (detections [two_tumours]) \<and>
   snd (annotate_and_extract seed6_slot tumor_model [blank_scan] 0 [two_tumours]) =
     Inr (1, [''glioma'', ''meningioma'']) \<and>
   snd (annotate_and_extract seed6_slot tumor_model [blank_scan] 0 [two_tumours_reversed]) =
     Inr (1, [''meningioma'', ''glioma''])"
proof -
  have "mset (detections [two_tumours_reversed]) = mset (detections [two_tumours])"
    by (simp add: detections_two_tumours detections_two_tumours_reversed)
  with returned_two_tumours returned_two_tumours_reversed show ?thesis by simp
qed

text \<open>
  C2, amended: for every detection sequence and every permutation of it, on the same image,
  the code raises for the one exactly when it raises for the other, and when it returns,
  the two returned lists hold the same set of categories. The order of the returned list
  may differ, and no confidence is kept per category.
\<close>

theorem categories_independent_of_order:
  assumes "mset (detections results') = mset (detections results)"
  shows "found_of (annotate_and_extract slot mdl s image_np results') =
         found_of (annotate_and_extract slot mdl s image_np results)"
proof -
  from assms have eq: "set (detections results') = set (detections results)"
    by (rule mset_eq_setD)
  have "first_error (names mdl) (\<not> is_empty (s ! image_np)) (detections results') = None \<longleftrightarrow>
        first_error (names mdl) (\<not> is_empty (s ! image_np)) (detections results) = None"
    by (simp add: first_error_None eq)
  then show ?thesis
    by (cases "first_error (names mdl) (\<not> is_empty (s ! image_np)) (detections results')";
        cases "first_error (names mdl) (\<not> is_empty (s ! image_np)) (detections results)")
      (simp_all add: found_of_eq eq)
qed

theorem categories_independent_of_order_witness:
  "mset (detections [two_tumours_reversed]) = mset (detections [two_tumours]) \<and>
   found_of (annotate_and_extract seed6_slot tumor_model [blank_scan] 0 [two_tumours_reversed]) =
     Some {''glioma'', ''meningioma''} \<and>
   found_of (annotate_and_extract seed6_slot tumor_model [blank_scan] 0 [two_tumours]) =
     Some {''glioma'', ''meningioma''}"
proof -
  have m: "mset (detections [two_tumours_reversed]) = mset (detections [two_tumours])"
    by (simp add: detections_two_tumours detections_two_tumours_reversed)
  have f: "found_of (annotate_and_extract seed6_slot tumor_model [blank_scan] 0 [two_tumours]) =
     Some {''glioma'', ''meningioma''}"
    by (simp add: found_of_def returned_two_tumours insert_commute)
  from categories_independent_of_order [OF m, of seed6_slot tumor_model "[blank_scan]" 0] f m
  show ?thesis by simp
qed




text \<open>
  C4, as stated: a detection whose box lies fully outside the image is skipped by the
  annotation. The code neither clamps a box nor tests it against the image: for a box
  below the last row of a 20 by 20 image it still calls \<open>cv2.rectangle\<close> and \<open>cv2.putText\<close>
  with the unclamped coordinates, and the origin of the text, ten rows above the box, lies
  inside the image.
\<close>

theorem box_outside_counterexample:
  "shape blank_scan = (20, 20) \<and>
   xyxy (boxes outside_result) = [(2, 25, 10, 30)] \<and>
   snd (annotate_and_extract seed6_slot tumor_model [blank_scan] 0 [outside_result]) =
     Inr (1, [''glioma'']) \<and>
   drawn (fst (annotate_and_extract seed6_slot tumor_model [blank_scan] 0 [outside_result]) ! 1) =
     [Rectangle (2, 25) (10, 30) (255, 0, 0) 2,
      PutText ''glioma (90.0%)'' (2, 15) FONT_HERSHEY_SIMPLEX 0.8 (255, 255, 255) 2]"
proof -
  have ok: "first_error (names tumor_model) (\<not> is_empty ([blank_scan] ! 0))
              (detections [outside_result]) = None"
    by (simp add: blank_scan_has_pixels no_error_outside)
  have "xyxy (boxes outside_result) = [(2, 25, 10, 30)]"
    by (simp add: outside_result_def)
  moreover
  have "drawn (fst (annotate_and_extract seed6_slot tumor_model [blank_scan] 0 [outside_result]) ! 1) =
     [Rectangle (2, 25) (10, 30) (255, 0, 0) 2,
      PutText ''glioma (90.0%)'' (2, 15) FONT_HERSHEY_SIMPLEX 0.8 (255, 255, 255) 2]"
    using annotated_content [OF ok, of seed6_slot]
    by (simp add: detections_outside tumor_model_def lower_Glioma label_glioma_90 py_int_def
        blank_scan_def)
  ultimately show ?thesis using blank_scan_shape returned_outside by simp
qed

text \<open>
  C4, amended: no box is clamped and no detection is skipped. For detections whose class
  ids are in the table, wherever the boxes lie: when the image has pixels and the
  truncated coordinates are signed 32-bit integers, the code issues for every detection,
  in order, one \<open>cv2.rectangle\<close> call at the box corners and one \<open>cv2.putText\<close> call ten
  rows above the top left corner (clipping is left to OpenCV), returns, and the returned
  image has the dimensions of the input; when a coordinate of some box is no 32-bit
  integer, or the image has no pixels, the OpenCV call raises \<open>cv2.error\<close> and nothing is
  returned.
\<close>

theorem boxes_drawn_unclamped:
  assumes "image_np < length s"
    and "\<forall>d\<in>set (detections results). class_name_of (names mdl) d \<noteq> None"
  shows "((\<forall>d\<in>set (detections results). box_fits d \<and> \<not> is_empty (s ! image_np)) \<longrightarrow>
            (\<exists>s' found.
               annotate_and_extract slot mdl s image_np results = (s', Inr (length s, found)) \<and>
               shape (s' ! length s) = shape (s ! image_np) \<and>
               drawn (s' ! length s) =
                 drawn (s ! image_np) @
                 concat (map (annotate_calls (names mdl)) (detections results)))) \<and>
         ((\<exists>d\<in>set (detections results). \<not> box_fits d \<or> is_empty (s ! image_np)) \<longrightarrow>
            snd (annotate_and_extract slot mdl s image_np results) = Inl Cv2Error)"
proof (intro conjI impI)
  assume "\<forall>d\<in>set (detections results). box_fits d \<and> \<not> is_empty (s ! image_np)"
  with assms(2)
  have ok: "first_error (names mdl) (\<not> is_empty (s ! image_np)) (detections results) = None"
    by (auto simp: first_error_None)
  from annotate_and_extract_snd [of slot mdl s image_np results] ok
  obtain found where "snd (annotate_and_extract slot mdl s image_np results) = Inr (length s, found)"
    by simp
  then have "annotate_and_extract slot mdl s image_np results =
      (fst (annotate_and_extract slot mdl s image_np results), Inr (length s, found))"
    by (metis prod.collapse)
  with annotated_content [OF ok, of slot]
  show "\<exists>s' found.
               annotate_and_extract slot mdl s image_np results = (s', Inr (length s, found)) \<and>
               shape (s' ! length s) = shape (s ! image_np) \<and>
               drawn (s' ! length s) =
                 drawn (s ! image_np) @
                 concat (map (annotate_calls (names mdl)) (detections results))"
    by (auto simp: shape_def)
next
  assume "\<exists>d\<in>set (detections results). \<not> box_fits d \<or> is_empty (s ! image_np)"
  then have "first_error (names mdl) (\<not> is_empty (s ! image_np)) (detections results) \<noteq> None"
    by (auto simp: first_error_None)
  with first_error_resolved [OF assms(2), of "\<not> is_empty (s ! image_np)"]
  show "snd (annotate_and_extract slot mdl s image_np results) = Inl Cv2Error"
    by (auto simp: annotate_and_extract_snd)
qed

theorem boxes_drawn_unclamped_witness:
  "(0::nat) < length [blank_scan] \<and> is_empty ([blank_scan] ! 0) = False \<and>
   detections [outside_result] = [((2, 25, 10, 30), 0, 0.9)] \<and>
   class_name_of (names tumor_model) ((2, 25, 10, 30), 0, 0.9) = Some ''Glioma'' \<and>
   box_fits ((2, 25, 10, 30), 0, 0.9) \<and>
   (\<exists>s' found.
      annotate_and_extract seed6_slot tumor_model [blank_scan] 0 [outside_result] =
        (s', Inr (length [blank_scan], found)) \<and>
      shape (s' ! length [blank_scan]) = shape ([blank_scan] ! 0) \<and>
      drawn (s' ! length [blank_scan]) =
        drawn ([blank_scan] ! 0) @
        concat (map (annotate_calls (names tumor_model)) (detections [outside_result]))) \<and>
   detections [far_result] = [((2, 2, 3000000000, 10), 0, 0.9)] \<and>
   class_name_of (names tumor_model) ((2, 2, 3000000000, 10), 0, 0.9) = Some ''Glioma'' \<and>
   box_fits ((2, 2, 3000000000, 10), 0, 0.9) = False \<and>
   snd (annotate_and_extract seed6_slot tumor_model [blank_scan] 0 [far_result]) = Inl Cv2Error"
proof -
  have a: "0 < length [blank_scan]" by simp
  have ok: "\<forall>d\<in>set (detections [outside_result]). class_name_of (names tumor_model) d \<noteq> None"
    by (simp add: detections_outside tumor_model_names)
  have ok': "\<forall>d\<in>set (detections [far_result]). class_name_of (names tumor_model) d \<noteq> None"
    by (simp add: detections_far tumor_model_names)
  have f: "\<forall>d\<in>set (detections [outside_result]). box_fits d \<and> \<not> is_empty ([blank_scan] ! 0)"
    by (simp add: detections_outside example_boxes_fit blank_scan_has_pixels)
  have n: "\<exists>d\<in>set (detections [far_result]). \<not> box_fits d \<or> is_empty ([blank_scan] ! 0)"
    by (simp add: detections_far example_boxes_fit)
  from boxes_drawn_unclamped [OF a ok, of seed6_slot] f
  have 1: "\<exists>s' found.
      annotate_and_extract seed6_slot tumor_model [blank_scan] 0 [outside_result] =
        (s', Inr (length [blank_scan], found)) \<and>
      shape (s' ! length [blank_scan]) = shape ([blank_scan] ! 0) \<and>
      drawn (s' ! length [blank_scan]) =
        drawn ([blank_scan] ! 0) @
        concat (map (annotate_calls (names tumor_model)) (detections [outside_result]))"
    by blast
  from boxes_drawn_unclamped [OF a ok', of seed6_slot] n
  have 2: "snd (annotate_and_extract seed6_slot tumor_model [blank_scan] 0 [far_result]) =
      Inl Cv2Error"
    by blast
  have 3: "is_empty ([blank_scan] ! 0) = False" "box_fits ((2, 25, 10, 30), 0, 0.9)"
    "box_fits ((2, 2, 3000000000, 10), 0, 0.9) = False"
    "class_name_of (names tumor_model) ((2, 25, 10, 30), 0, 0.9) = Some ''Glioma''"
    "class_name_of (names tumor_model) ((2, 2, 3000000000, 10), 0, 0.9) = Some ''Glioma''"
    by (simp_all add: blank_scan_has_pixels example_boxes_fit tumor_model_names)
  from a 1 2 3 detections_outside detections_far show ?thesis by blast
qed

text \<open>
  C5: when the results hold no detection, the annotated image has the content of the input
  image and the list of categories is empty; the call returns normally.
\<close>

theorem no_detections_empty_result:
  assumes "image_np < length s" and "detections results = []"
  shows "\<exists>s'. annotate_and_extract slot mdl s image_np results = (s', Inr (length s, [])) \<and>
              s' ! length s = s ! image_np"
proof -
  have ok: "first_error (names mdl) (\<not> is_empty (s ! image_np)) (detections results) = None"
    using assms(2) by simp
  from annotate_and_extract_snd [of slot mdl s image_np results] ok assms(2)
  have "snd (annotate_and_extract slot mdl s image_np results) = Inr (length s, [])"
    by simp
  then have "annotate_and_extract slot mdl s image_np results =
      (fst (annotate_and_extract slot mdl s image_np results), Inr (length s, []))"
    by (metis prod.collapse)
  with annotated_content [OF ok, of slot] assms(2) show ?thesis by auto
qed

theorem no_detections_empty_result_witness:
  "(0::nat) < length [blank_scan] \<and> detections [empty_result] = [] \<and>
   (\<exists>s'. annotate_and_extract seed6_slot tumor_model [blank_scan] 0 [empty_result] =
           (s', Inr (1, [])) \<and>
         s' ! 1 = blank_scan) \<and>
   (\<exists>s'. annotate_and_extract seed6_slot tumor_model [blank_scan] 0 [] = (s', Inr (1, [])) \<and>
         s' ! 1 = blank_scan)"
proof -
  have a: "0 < length [blank_scan]" by simp
  have n: "detections [] = []" by (simp add: detections_def)
  from no_detections_empty_result [OF a detections_empty, of seed6_slot tumor_model]
    no_detections_empty_result [OF a n, of seed6_slot tumor_model] detections_empty
  show ?thesis by simp
qed

text \<open>
  C6, as stated: for a category missing from \<open>TUMOR_INFO\<close> the text shown is exactly
  "Unknown_X: Additional information will be added soon." for \<open>unknown_x\<close>. The code wraps
  the title-cased name in the markdown bold markers \<open>**\<close>, so the stated string is not
  what is shown.
\<close>

theorem placeholder_counterexample:
  "tumor_information ''unknown_x'' \<noteq> ''Unknown_X: Additional information will be added soon.''"
  by (simp add: tumor_information_def unknown_x_absent)

text \<open>
  C6, amended: for a category missing from \<open>TUMOR_INFO\<close> the text shown is the title-cased
  category between \<open>**\<close> markers followed by ": Additional information will be added
  soon."; for a category of the table it is the stored text. Both branches return a text,
  neither raises.
\<close>

theorem tumor_information_cases:
  "(TUMOR_INFO category = None \<longrightarrow>
      tumor_information category =
        ''**'' @ title category @ ''**: Additional information will be added soon.'') \<and>
   (\<forall>text. TUMOR_INFO category = Some text \<longrightarrow> tumor_information category = text)"
  by (simp add: tumor_information_def)

theorem tumor_information_cases_witness:
  "TUMOR_INFO ''unknown_x'' = None \<and>
   tumor_information ''unknown_x'' = ''**Unknown_X**: Additional information will be added soon.'' \<and>
   TUMOR_INFO ''glioma'' = Some (tumor_information ''glioma'') \<and>
   take 10 (tumor_information ''glioma'') = ''**Glioma**''"
proof -
  have g: "TUMOR_INFO ''glioma'' \<noteq> None"
    by (simp add: TUMOR_INFO_def)
  have t: "take 10 (the (TUMOR_INFO ''glioma'')) = ''**Glioma**''"
    by (simp add: TUMOR_INFO_def)
  from g t tumor_information_cases [of "''unknown_x''"] tumor_information_cases [of "''glioma''"]
    unknown_x_absent title_unknown_x
  show ?thesis by auto
qed

text \<open>
  C7: the texts passed to \<open>cv2.putText\<close> are, detection by detection, the lower-cased class
  name, a blank, and in parentheses the confidence times 100 rounded to two decimals,
  printed as Python prints a float, followed by a percent sign. For "Meningioma" and
  confidence 0.8734 (also as the nearest 32-bit float) the text is "meningioma (87.34%)".
\<close>

theorem label_text_format:
  assumes "image_np < length s"
    and "snd (annotate_and_extract slot mdl s image_np results) = Inr (annotated_img, found)"
  shows "put_texts (calls_since s image_np
                      (fst (annotate_and_extract slot mdl s image_np results)) annotated_img) =
         map (\<lambda>d. lower (the (class_name_of (names mdl) d)) @ '' ('' @
                     py_str_float (py_round2 (snd (snd d) * 100)) @ ''%)'')
           (detections results)"
proof -
  from assms(2)
  have ok: "first_error (names mdl) (\<not> is_empty (s ! image_np)) (detections results) = None"
    and "annotated_img = length s"
    by (simp_all add: annotate_and_extract_snd split: option.splits)
  with calls_since_annotate [OF ok, of slot] show ?thesis
    by (simp add: put_texts_annotate_calls label_text_def)
qed

theorem label_text_format_witness:
  "(0::nat) < length [blank_scan] \<and>
   snd (annotate_and_extract seed6_slot tumor_model [blank_scan] 0 [meningioma_result]) =
     Inr (1, [''meningioma'']) \<and>
   conf (boxes meningioma_result) = [0.8734, 3663305 / 4194304] \<and>
   put_texts (calls_since [blank_scan] 0
                (fst (annotate_and_extract seed6_slot tumor_model [blank_scan] 0
                        [meningioma_result])) 1) =
     [''meningioma (87.34%)'', ''meningioma (87.34%)'']"
proof -
  have a: "0 < length [blank_scan]" by simp
  have c: "conf (boxes meningioma_result) = [0.8734, 3663305 / 4194304]"
    by (simp add: meningioma_result_def)
  have "map (\<lambda>d. lower (the (class_name_of (names tumor_model) d)) @ '' ('' @
                     py_str_float (py_round2 (snd (snd d) * 100)) @ ''%)'')
           (detections [meningioma_result]) =
        [''meningioma (87.34%)'', ''meningioma (87.34%)'']"
    by (simp add: detections_meningioma tumor_model_names lower_Meningioma
        py_str_float_def py_round2_def round_half_even_def digits.simps digit_def Let_def)
  with label_text_format [OF a returned_meningioma] a returned_meningioma c show ?thesis
    by simp
qed

text \<open>
  C8: the annotation draws on a copy. After the call, whether it returned or raised, every
  array that existed before, the input image among them, is as it was; the array returned
  is a new one and starts from the pixels of the input.
\<close>

theorem original_buffer_unchanged:
  assumes "image_np < length s"
    and "annotate_and_extract slot mdl s image_np results = (s', r)"
  shows "s' ! image_np = s ! image_np \<and> take (length s) s' = s \<and>
         pixels (s' ! length s) = pixels (s ! image_np) \<and>
         (\<forall>annotated_img found. r = Inr (annotated_img, found) \<longrightarrow>
            annotated_img = length s \<and> annotated_img \<noteq> image_np)"
proof -
  from annotate_and_extract_frame [OF assms(2)]
  have t: "take (length s) s' = s"
    and p: "pixels (s' ! length s) = pixels (s ! image_np)"
    and n: "\<forall>annotated_img found. r = Inr (annotated_img, found) \<longrightarrow> annotated_img = length s"
    by simp_all
  have "s' ! image_np = take (length s) s' ! image_np"
    using assms(1) by simp
  with t have "s' ! image_np = s ! image_np" by simp
  with t p n assms(1) show ?thesis by auto
qed

theorem original_buffer_unchanged_witness:
  "(0::nat) < length [blank_scan] \<and>
   fst (annotate_and_extract seed6_slot tumor_model [blank_scan] 0 [two_tumours]) ! 0 =
     blank_scan \<and>
   snd (annotate_and_extract seed6_slot tumor_model [blank_scan] 0 [two_tumours]) =
     Inr (1, [''glioma'', ''meningioma'']) \<and>
   fst (annotate_and_extract seed6_slot tumor_model [blank_scan] 0 [stray_result]) ! 0 =
     blank_scan \<and>
   snd (annotate_and_extract seed6_slot tumor_model [blank_scan] 0 [stray_result]) =
     Inl (KeyError 5) \<and>
   fst (annotate_and_extract seed6_slot tumor_model [blank_scan] 0 [far_result]) ! 0 =
     blank_scan \<and>
   snd (annotate_and_extract seed6_slot tumor_model [blank_scan] 0 [far_result]) = Inl Cv2Error"
proof -
  have a: "0 < length [blank_scan]" by simp
  from original_buffer_unchanged [OF a surjective_pairing, of seed6_slot tumor_model "[two_tumours]"]
    original_buffer_unchanged [OF a surjective_pairing, of seed6_slot tumor_model "[stray_result]"]
    original_buffer_unchanged [OF a surjective_pairing, of seed6_slot tumor_model "[far_result]"]
    a returned_two_tumours stray_raises far_raises
  show ?thesis by simp
qed

text \<open>
  C9: the download file name is \<open>tumor_result_\<close>, the clock value as four digits of year,
  two each of month and day, an underscore, two digits each of hour, minute and second,
  then \<open>.jpg\<close>. The name is a function of the clock value alone. The year is taken
  between 1000 and 9999, where \<open>%Y\<close> gives four digits.
\<close>

theorem download_file_name_format:
  assumes "valid_datetime now"
  shows "\<exists>Y m d H M S.
           download_file_name now = ''tumor_result_'' @ Y @ m @ d @ ''_'' @ H @ M @ S @ ''.jpg'' \<and>
           (length Y = 4 \<and> list_all is_digit Y \<and> decimal_value Y = year now) \<and>
           (length m = 2 \<and> list_all is_digit m \<and> decimal_value m = month now) \<and>
           (length d = 2 \<and> list_all is_digit d \<and> decimal_value d = day now) \<and>
           (length H = 2 \<and> list_all is_digit H \<and> decimal_value H = hour now) \<and>
           (length M = 2 \<and> list_all is_digit M \<and> decimal_value M = minute now) \<and>
           (length S = 2 \<and> list_all is_digit S \<and> decimal_value S = second now)"
proof -
  have y: "1000 \<le> year now" "year now \<le> 9999"
    and r: "month now < 100" "day now < 100" "hour now < 100" "minute now < 100" "second now < 100"
    using assms by (simp_all add: valid_datetime_def)
  have "download_file_name now =
          ''tumor_result_'' @ digits (year now) @ pad2 (month now) @ pad2 (day now) @ ''_'' @
          pad2 (hour now) @ pad2 (minute now) @ pad2 (second now) @ ''.jpg''"
    by (simp add: download_file_name_def strftime_Ymd_HMS_def)
  with four_digits [OF y] two_digits [OF r(1)] two_digits [OF r(2)] two_digits [OF r(3)]
    two_digits [OF r(4)] two_digits [OF r(5)]
  show ?thesis by blast
qed

theorem download_file_name_format_witness:
  "valid_datetime example_clock \<and>
   download_file_name example_clock = ''tumor_result_20261103_090500.jpg'' \<and>
   (\<exists>Y m d H M S.
      download_file_name example_clock =
        ''tumor_result_'' @ Y @ m @ d @ ''_'' @ H @ M @ S @ ''.jpg'' \<and>
      (length Y = 4 \<and> list_all is_digit Y \<and> decimal_value Y = year example_clock) \<and>
      (length m = 2 \<and> list_all is_digit m \<and> decimal_value m = month example_clock) \<and>
      (length d = 2 \<and> list_all is_digit d \<and> decimal_value d = day example_clock) \<and>
      (length H = 2 \<and> list_all is_digit H \<and> decimal_value H = hour example_clock) \<and>
      (length M = 2 \<and> list_all is_digit M \<and> decimal_value M = minute example_clock) \<and>
      (length S = 2 \<and> list_all is_digit S \<and> decimal_value S = second example_clock))"
  using download_file_name_format [OF example_clock_valid] example_clock_valid example_clock_name
  by blast

text \<open>
  C10: on the results of the same model call, \<open>detect_tumor\<close> and \<open>annotate_and_extract\<close>
  either raise the same exception (\<open>KeyError\<close> for the same missing id, or \<open>cv2.error\<close>),
  or both return and their label texts are, detection by detection, the same format
  applied to the same rounded confidence: \<open>detect_tumor\<close> gives it the class name as it is
  in the table, \<open>annotate_and_extract\<close> the lower-cased class name.
\<close>

theorem label_paths_agree:
  assumes "img < length s"
  shows "(\<exists>k. names mdl k = None \<and>
              snd (detect_tumor s img mdl threshold) = Inl (KeyError k) \<and>
              snd (annotate_and_extract slot mdl s img (predict mdl (s ! img) threshold)) =
                Inl (KeyError k)) \<or>
         (snd (detect_tumor s img mdl threshold) = Inl Cv2Error \<and>
          snd (annotate_and_extract slot mdl s img (predict mdl (s ! img) threshold)) =
            Inl Cv2Error) \<or>
         (\<exists>labels found.
              snd (detect_tumor s img mdl threshold) = Inr (Suc (length s), labels) \<and>
              snd (annotate_and_extract slot mdl s img (predict mdl (s ! img) threshold)) =
                Inr (length s, found) \<and>
              labels =
                map (\<lambda>d. the (class_name_of (names mdl) d) @ '' ('' @
                            py_str_float (py_round2 (snd (snd d) * 100)) @ ''%)'')
                  (detections (predict mdl (s ! img) threshold)) \<and>
              put_texts (calls_since s img (fst (detect_tumor s img mdl threshold))
                           (Suc (length s))) = labels \<and>
              put_texts (calls_since s img
                           (fst (annotate_and_extract slot mdl s img
                                   (predict mdl (s ! img) threshold)))
                           (length s)) =
                map (\<lambda>d. lower (the (class_name_of (names mdl) d)) @ '' ('' @
                            py_str_float (py_round2 (snd (snd d) * 100)) @ ''%)'')
                  (detections (predict mdl (s ! img) threshold)))"
proof -
  let ?ds = "detections (predict mdl (s ! img) threshold)"
  let ?e = "first_error (names mdl) (\<not> is_empty (s ! img)) ?ds"
  from first_error_cases [of "names mdl" "\<not> is_empty (s ! img)" ?ds]
  consider (ok) "?e = None" | (cv) "?e = Some Cv2Error"
    | (key) k where "names mdl k = None" "?e = Some (KeyError k)"
    by auto
  then show ?thesis
  proof cases
    case ok
    have "snd (detect_tumor s img mdl threshold) =
          Inr (Suc (length s),
               map (\<lambda>d. the (class_name_of (names mdl) d) @ '' ('' @
                            py_str_float (py_round2 (snd (snd d) * 100)) @ ''%)'') ?ds)"
      by (simp add: detect_tumor_snd [OF assms] ok label_text_def)
    moreover
    have "\<exists>found. snd (annotate_and_extract slot mdl s img (predict mdl (s ! img) threshold)) =
          Inr (length s, found)"
      by (simp add: annotate_and_extract_snd ok)
    moreover
    have "put_texts (calls_since s img (fst (detect_tumor s img mdl threshold))
                   (Suc (length s))) =
          map (\<lambda>d. the (class_name_of (names mdl) d) @ '' ('' @
                      py_str_float (py_round2 (snd (snd d) * 100)) @ ''%)'') ?ds"
      by (simp add: calls_since_detect [OF assms ok] put_texts_detect_calls label_text_def)
    moreover
    have "put_texts (calls_since s img
                   (fst (annotate_and_extract slot mdl s img (predict mdl (s ! img) threshold)))
                   (length s)) =
          map (\<lambda>d. lower (the (class_name_of (names mdl) d)) @ '' ('' @
                      py_str_float (py_round2 (snd (snd d) * 100)) @ ''%)'') ?ds"
      by (simp add: calls_since_annotate [OF ok] put_texts_annotate_calls label_text_def)
    ultimately show ?thesis by auto
  next
    case cv
    then show ?thesis
      by (simp add: detect_tumor_snd [OF assms] annotate_and_extract_snd)
  next
    case key
    then show ?thesis
      by (auto simp: detect_tumor_snd [OF assms] annotate_and_extract_snd)
  qed
qed

theorem label_paths_agree_witness:
  "(0::nat) < length [blank_scan] \<and>
   predict tumor_model ([blank_scan] ! 0) 0.25 = [two_tumours] \<and>
   snd (detect_tumor [blank_scan] 0 tumor_model 0.25) =
     Inr (2, [''Meningioma (87.34%)'', ''Glioma (50.0%)'']) \<and>
   put_texts (calls_since [blank_scan] 0
                (fst (annotate_and_extract seed6_slot tumor_model [blank_scan] 0 [two_tumours]))
                1) =
     [''meningioma (87.34%)'', ''glioma (50.0%)'']"
proof -
  have a: "0 < length [blank_scan]" by simp
  have p: "predict tumor_model ([blank_scan] ! 0) 0.25 = [two_tumours]"
    by (simp add: tumor_model_def fixed_predictions_def)
  have u: "map (\<lambda>d. the (class_name_of (names tumor_model) d) @ '' ('' @
                      py_str_float (py_round2 (snd (snd d) * 100)) @ ''%)'')
             (detections [two_tumours]) =
           [''Meningioma (87.34%)'', ''Glioma (50.0%)'']"
    by (simp add: detections_two_tumours tumor_model_names
        py_str_float_def py_round2_def round_half_even_def digits.simps digit_def Let_def)
  have l: "map (\<lambda>d. lower (the (class_name_of (names tumor_model) d)) @ '' ('' @
                      py_str_float (py_round2 (snd (snd d) * 100)) @ ''%)'')
             (detections [two_tumours]) =
           [''meningioma (87.34%)'', ''glioma (50.0%)'']"
    by (simp add: detections_two_tumours tumor_model_names lower_Meningioma lower_Glioma
        py_str_float_def py_round2_def round_half_even_def digits.simps digit_def Let_def)
  have q: "predict tumor_model x t = [two_tumours]" for x t
    by (simp add: tumor_model_def fixed_predictions_def)
  have n: "\<exists>labels. snd (detect_tumor [blank_scan] 0 tumor_model 0.25) = Inr (2, labels)"
    by (simp add: detect_tumor_snd [OF a] q blank_scan_has_pixels no_error_two_tumours)
  with label_paths_agree [OF a, of tumor_model "0.25" seed6_slot]
  have "\<exists>labels found.
          snd (detect_tumor [blank_scan] 0 tumor_model 0.25) = Inr (Suc (length [blank_scan]), labels) \<and>
          labels =
            map (\<lambda>d. the (class_name_of (names tumor_model) d) @ '' ('' @
                        py_str_float (py_round2 (snd (snd d) * 100)) @ ''%)'')
              (detections (predict tumor_model ([blank_scan] ! 0) 0.25)) \<and>
          put_texts (calls_since [blank_scan] 0
                       (fst (annotate_and_extract seed6_slot tumor_model [blank_scan] 0
                               (predict tumor_model ([blank_scan] ! 0) 0.25)))
                       (length [blank_scan])) =
            map (\<lambda>d. lower (the (class_name_of (names tumor_model) d)) @ '' ('' @
                        py_str_float (py_round2 (snd (snd d) * 100)) @ ''%)'')
              (detections (predict tumor_model ([blank_scan] ! 0) 0.25))"
    by auto
  then show ?thesis
    unfolding p u l using a p by auto
qed

end
